theory Spec2Isabelle
  imports Main
begin

section \<open>The Redfish Chassis resource of sushy\<close>

text \<open>
  A shallow embedding of \<^verbatim>\<open>sushy/resources/chassis/chassis.py\<close>: the attribute
  declarations of the \<^verbatim>\<open>Chassis\<close> class, and the three methods of the reset
  protocol, \<^verbatim>\<open>_get_reset_action_element\<close>,
  \<^verbatim>\<open>get_allowed_reset_chassis_values\<close> and \<^verbatim>\<open>reset_chassis\<close>.
  Python's leading underscores are dropped (\<^verbatim>\<open>_actions\<close> is \<open>actions\<close>,
  \<^verbatim>\<open>_path\<close> is \<open>path\<close>), exceptions are values of a sum type, and the
  connector and the logger are explicit state.
\<close>

subsection \<open>JSON documents and Python dictionaries\<close>

datatype json =
    JNull
  | JBool bool
  | JNum int
  | JStr string
  | JArr "json list"
  | JObj "(string \<times> json) list"

text \<open>
  A Python \<^verbatim>\<open>dict\<close> is an association list read with \<open>map_of\<close>; its key set
  is the set of first components. \<^verbatim>\<open>d[k]\<close> raises \<^verbatim>\<open>KeyError\<close> on a
  missing key.
\<close>

type_synonym ('k, 'v) dict = "('k \<times> 'v) list"

subsection \<open>Exceptions\<close>

datatype 'c error =
    MissingAttributeError string string
  | MissingActionError string string
  | InvalidParameterValueError string 'c "'c set"
  | AttributeError string
  | KeyError
  | ConnectionError string

definition getitem :: "('k, 'v) dict \<Rightarrow> 'k \<Rightarrow> 'c error + 'v" where
  "getitem d k = (case map_of d k of None \<Rightarrow> Inl KeyError | Some v \<Rightarrow> Inr v)"

text \<open>The list comprehension \<^verbatim>\<open>[d[v] for v in vs]\<close>: the first missing key raises.\<close>

fun getitems :: "('k, 'v) dict \<Rightarrow> 'k list \<Rightarrow> 'c error + 'v list" where
  "getitems d [] = Inr []"
| "getitems d (v # vs) =
     (case getitem d v of
        Inl e \<Rightarrow> Inl e
      | Inr x \<Rightarrow> (case getitems d vs of Inl e \<Rightarrow> Inl e | Inr xs \<Rightarrow> Inr (x # xs)))"

text \<open>
  \<^verbatim>\<open>set(d)\<close> enumerated in some order, and
  \<^verbatim>\<open>set(d).intersection(vs)\<close>: the keys of \<open>d\<close> that occur in \<open>vs\<close>.
\<close>

definition keys :: "('k, 'v) dict \<Rightarrow> 'k list" where
  "keys d = remdups (map fst d)"

definition intersection :: "'k list \<Rightarrow> 'k list \<Rightarrow> 'k list" where
  "intersection ks vs = filter (\<lambda>k. k \<in> set vs) ks"

subsection \<open>The collaborating modules\<close>

text \<open>
  The mapping tables of \<^verbatim>\<open>sushy.resources.mappings\<close> (\<^verbatim>\<open>res_maps\<close>) and of
  \<^verbatim>\<open>sushy.resources.chassis.mappings\<close> (\<^verbatim>\<open>cha_maps\<close>) are parameters of
  the model, one record per module. The type \<open>'c\<close> is the type of the semantic
  constants.
\<close>

record 'c res_maps =
  INDICATOR_LED_VALUE_MAP :: "(string, 'c) dict"
  POWER_STATE_VALUE_MAP :: "(string, 'c) dict"
  RESET_TYPE_VALUE_MAP :: "(string, 'c) dict"
  RESET_TYPE_VALUE_MAP_REV :: "('c, string) dict"

record 'c cha_maps =
  CHASSIS_TYPE_VALUE_MAP :: "(string, 'c) dict"
  CHASSIS_INTRUSION_SENSOR_MAP :: "(string, 'c) dict"
  CHASSIS_INTRUSION_SENSOR_RE_ARM_MAP :: "(string, 'c) dict"

text \<open>
  Modelled from the spec: the invariant of a mapped enumeration, whose tables are
  declared outside this module. The forward table (wire string to semantic constant)
  and the reverse table (semantic constant to wire string) are exact inverses: every
  entry that a lookup can reach in one table is found mirrored in the other.
\<close>

definition exact_inverses :: "(string, 'c) dict \<Rightarrow> ('c, string) dict \<Rightarrow> bool" where
  "exact_inverses forward reverse \<longleftrightarrow>
     list_all (\<lambda>(w, c). map_of forward w = Some c \<longrightarrow> map_of reverse c = Some w) forward \<and>
     list_all (\<lambda>(c, w). map_of reverse c = Some w \<longrightarrow> map_of forward w = Some c) reverse"

text \<open>
  Modelled from the spec: a mapped enumeration is one bidirectional table between wire
  strings and semantic constants, declared outside this module. The forward table lists
  its entries from wire string to constant; the reverse table (the table that this
  module reads under the name of the forward table with the suffix \<^verbatim>\<open>_REV\<close>) lists the
  same entries from constant to wire string.
\<close>

definition reverse_table :: "('k, 'v) dict \<Rightarrow> ('v, 'k) dict" where
  "reverse_table t = map (\<lambda>(k, v). (v, k)) t"

subsection \<open>The resolved attributes of a Chassis\<close>

text \<open>
  A mapped field holds a semantic constant, or the unknown sentinel for a wire value
  that its table does not list.
\<close>

datatype 'c mapped = Known 'c | Unknown

text \<open>
  Modelled from the spec: the action descriptor \<^verbatim>\<open>common.ResetActionField\<close>, a
  composite field with a target URI and an optional list of allowed wire values
  (\<open>None\<close> when the document does not give the list).
\<close>

record ResetActionField =
  target_uri :: string
  allowed_values :: "string list option"

record ActionsField =
  reset :: "ResetActionField option"

record 'c PhysicalSecurity =
  intrusion_sensor :: "'c mapped option"
  intrusion_sensor_number :: "json option"
  intrusion_sensor_re_arm :: "'c mapped option"

text \<open>
  Every attribute is \<open>None\<close> (Python's \<^verbatim>\<open>None\<close>) when its path is absent from
  the document. \<open>path\<close>, \<open>redfish_version\<close> and \<open>json_doc\<close> are the attributes
  that the resource base class keeps: the path given to the constructor, the version,
  and the document last fetched.
\<close>

record 'c Chassis =
  path :: string
  redfish_version :: "string option"
  json_doc :: json
  chassis_type :: "'c mapped option"
  identity :: "json option"
  name :: "json option"
  asset_tag :: "json option"
  depth_mm :: "json option"
  description :: "json option"
  height_mm :: "json option"
  indicator_led :: "'c mapped option"
  manufacturer :: "json option"
  model :: "json option"
  part_number :: "json option"
  physical_security :: "'c PhysicalSecurity option"
  power_state :: "'c mapped option"
  serial_number :: "json option"
  sku :: "json option"
  status :: "json option"
  uuid :: "json option"
  weight_kg :: "json option"
  width_mm :: "json option"
  actions :: "ActionsField option"

subsection \<open>The connector and the logger\<close>

text \<open>
  The connector records every request it is asked to make. What the server answers is
  a parameter: \<open>get_response\<close> and \<open>post_response\<close> give the response, or
  \<open>Inl\<close> the transport failure that the connector raises.
\<close>

datatype http_call =
    GET string
  | POST string "(string, string) dict"

record connector =
  calls :: "http_call list"
  get_response :: "string \<Rightarrow> string + json"
  post_response :: "string \<Rightarrow> (string, string) dict \<Rightarrow> string + json"

datatype level = DEBUG | INFO | WARNING

type_synonym log_record = "level \<times> string \<times> json option"

text \<open>
  The state that a method of a Chassis can read and write: the resource itself, its
  connector and the module's logger.
\<close>

record 'c state =
  self :: "'c Chassis"
  conn :: connector
  LOG :: "log_record list"

definition log_msg :: "level \<Rightarrow> string \<Rightarrow> json option \<Rightarrow> 'c state \<Rightarrow> 'c state" where
  "log_msg lvl msg arg s = s\<lparr>LOG := LOG s @ [(lvl, msg, arg)]\<rparr>"

definition post :: "string \<Rightarrow> (string, string) dict \<Rightarrow> 'c state \<Rightarrow> ('c error + json) \<times> 'c state" where
  "post uri data s =
     (let s' = s\<lparr>conn := (conn s)\<lparr>calls := calls (conn s) @ [POST uri data]\<rparr>\<rparr>
      in case post_response (conn s) uri data of
           Inl e \<Rightarrow> (Inl (ConnectionError e), s')
         | Inr response \<Rightarrow> (Inr response, s'))"

subsection \<open>The reset protocol\<close>

text \<open>
  \<^verbatim>\<open>self._actions.reset\<close> reads an attribute of \<^verbatim>\<open>self._actions\<close>, which
  raises \<^verbatim>\<open>AttributeError\<close> when \<^verbatim>\<open>self._actions\<close> is \<^verbatim>\<open>None\<close>. A
  descriptor that is present is truthy.
\<close>

definition get_reset_action_element :: "'c Chassis \<Rightarrow> 'c error + ResetActionField" where
  "get_reset_action_element c =
     (case actions c of
        None \<Rightarrow> Inl (AttributeError ''reset'')
      | Some a \<Rightarrow>
          (case reset a of
             None \<Rightarrow> Inl (MissingActionError ''#Chassis.Reset'' (path c))
           | Some reset_action \<Rightarrow> Inr reset_action))"

text \<open>
  \<^verbatim>\<open>not reset_action.allowed_values\<close> holds for \<^verbatim>\<open>None\<close> and for the
  empty list; both take the branch that warns and returns every reset constant.
\<close>

definition get_allowed_reset_chassis_values ::
  "'c res_maps \<Rightarrow> 'c state \<Rightarrow> ('c error + 'c set) \<times> 'c state" where
  "get_allowed_reset_chassis_values rm s =
     (case get_reset_action_element (self s) of
        Inl e \<Rightarrow> (Inl e, s)
      | Inr reset_action \<Rightarrow>
          (let unknown =
                 (Inr (set (keys (RESET_TYPE_VALUE_MAP_REV rm))),
                  log_msg WARNING
                    ''Could not figure out the allowed values for the reset chassis action for Chassis %s''
                    (identity (self s)) s)
           in case allowed_values reset_action of
                None \<Rightarrow> unknown
              | Some vs \<Rightarrow>
                  if vs = [] then unknown
                  else
                    (case getitems (RESET_TYPE_VALUE_MAP rm)
                            (intersection (keys (RESET_TYPE_VALUE_MAP rm)) vs) of
                       Inl e \<Rightarrow> (Inl e, s)
                     | Inr cs \<Rightarrow> (Inr (set cs), s))))"

definition reset_chassis :: "'c res_maps \<Rightarrow> 'c \<Rightarrow> 'c state \<Rightarrow> ('c error + unit) \<times> 'c state" where
  "reset_chassis rm v s =
     (case get_allowed_reset_chassis_values rm s of
        (Inl e, s1) \<Rightarrow> (Inl e, s1)
      | (Inr valid_resets, s1) \<Rightarrow>
          if v \<notin> valid_resets then
            (Inl (InvalidParameterValueError ''value'' v valid_resets), s1)
          else
            (case getitem (RESET_TYPE_VALUE_MAP_REV rm) v of
               Inl e \<Rightarrow> (Inl e, s1)
             | Inr w \<Rightarrow>
                 (case get_reset_action_element (self s1) of
                    Inl e \<Rightarrow> (Inl e, s1)
                  | Inr reset_action \<Rightarrow>
                      (let s2 = log_msg DEBUG ''Resetting the Chassis %s ...'' (identity (self s1)) s1
                       in case post (target_uri reset_action) [(''ResetType'', w)] s2 of
                            (Inl e, s3) \<Rightarrow> (Inl e, s3)
                          | (Inr response, s3) \<Rightarrow>
                              (Inr (), log_msg INFO ''The Chassis %s is being reset''
                                         (identity (self s3)) s3)))))"

subsection \<open>Loading a Chassis from its document\<close>

definition json_get :: "json \<Rightarrow> string \<Rightarrow> json option" where
  "json_get body k = (case body of JObj kvs \<Rightarrow> map_of kvs k | _ \<Rightarrow> None)"

definition and_then :: "'e + 'a \<Rightarrow> ('a \<Rightarrow> 'e + 'b) \<Rightarrow> 'e + 'b" where
  "and_then r f = (case r of Inl e \<Rightarrow> Inl e | Inr x \<Rightarrow> f x)"

text \<open>
  Modelled from the spec: the field descriptors of \<^verbatim>\<open>sushy.resources.base\<close>, which
  this module instantiates. A plain field resolves to the raw value at its path, to the
  default \<^verbatim>\<open>None\<close> when the path is absent and the field is not required, and to
  \<^verbatim>\<open>MissingAttributeError\<close> when it is required and absent. The last argument is
  the path of the resource, which the error carries.
\<close>

definition Field :: "string \<Rightarrow> bool \<Rightarrow> json \<Rightarrow> string \<Rightarrow> 'c error + json option" where
  "Field p required body resource =
     (case json_get body p of
        Some v \<Rightarrow> Inr (Some v)
      | None \<Rightarrow> if required then Inl (MissingAttributeError p resource) else Inr None)"

text \<open>
  Modelled from the spec: a mapped field looks the raw wire string up in the forward
  table; a value that the table does not list resolves to the unknown constant and
  never raises.
\<close>

definition to_constant :: "(string, 'c) dict \<Rightarrow> json \<Rightarrow> 'c mapped" where
  "to_constant mapping raw =
     (case raw of
        JStr w \<Rightarrow> (case map_of mapping w of Some c \<Rightarrow> Known c | None \<Rightarrow> Unknown)
      | _ \<Rightarrow> Unknown)"

definition MappedField ::
  "string \<Rightarrow> (string, 'c) dict \<Rightarrow> bool \<Rightarrow> json \<Rightarrow> string \<Rightarrow> 'c error + 'c mapped option" where
  "MappedField p mapping required body resource =
     and_then (Field p required body resource) (\<lambda>raw. Inr (map_option (to_constant mapping) raw))"

text \<open>
  Modelled from the spec: a composite field resolves its declared sub-fields against the
  sub-document at its path; when the path is absent the whole composite resolves to
  \<^verbatim>\<open>None\<close>, which is not an error.
\<close>

definition CompositeField ::
  "string \<Rightarrow> (json \<Rightarrow> string \<Rightarrow> 'c error + 'a) \<Rightarrow> json \<Rightarrow> string \<Rightarrow> 'c error + 'a option" where
  "CompositeField p subfields body resource =
     (case json_get body p of
        None \<Rightarrow> Inr None
      | Some sub \<Rightarrow> and_then (subfields sub resource) (\<lambda>v. Inr (Some v)))"

text \<open>
  Modelled from the spec: the sub-fields of \<^verbatim>\<open>common.ResetActionField\<close>. The target
  URI is a string that a present descriptor must give; the allowed values are an
  optional sequence of wire strings. The JSON keys of the two sub-fields are declared in
  the \<^verbatim>\<open>common\<close> module and are parameters here. A value that is not of the declared
  shape is read as absent.
\<close>

record common =
  target_key :: string
  allowed_values_key :: string

definition wire_strings :: "json \<Rightarrow> string list option" where
  "wire_strings v =
     (case v of
        JArr xs \<Rightarrow> Some (List.map_filter (\<lambda>x. case x of JStr w \<Rightarrow> Some w | _ \<Rightarrow> None) xs)
      | _ \<Rightarrow> None)"

definition ResetActionField_subfields :: "common \<Rightarrow> json \<Rightarrow> string \<Rightarrow> 'c error + ResetActionField" where
  "ResetActionField_subfields cmn body resource =
     (case json_get body (target_key cmn) of
        Some (JStr uri) \<Rightarrow>
          Inr \<lparr>target_uri = uri,
               allowed_values = Option.bind (json_get body (allowed_values_key cmn)) wire_strings\<rparr>
      | _ \<Rightarrow> Inl (MissingAttributeError (target_key cmn) resource))"

text \<open>The two composite fields that this module declares.\<close>

definition ActionsField_subfields :: "common \<Rightarrow> json \<Rightarrow> string \<Rightarrow> 'c error + ActionsField" where
  "ActionsField_subfields cmn body resource =
     and_then (CompositeField ''#Chassis.Reset'' (ResetActionField_subfields cmn) body resource)
       (\<lambda>r. Inr \<lparr>reset = r\<rparr>)"

definition PhysicalSecurity_subfields ::
  "'c cha_maps \<Rightarrow> json \<Rightarrow> string \<Rightarrow> 'c error + 'c PhysicalSecurity" where
  "PhysicalSecurity_subfields cm body resource =
     and_then (MappedField ''IntrusionSensor'' (CHASSIS_INTRUSION_SENSOR_MAP cm) False body resource)
       (\<lambda>v1.
     and_then (Field ''IntrusionSensorNumber'' False body resource)
       (\<lambda>v2.
     and_then (MappedField ''IntrusionSensorReArm'' (CHASSIS_INTRUSION_SENSOR_RE_ARM_MAP cm) False
                 body resource)
       (\<lambda>v3.
     Inr \<lparr>intrusion_sensor = v1, intrusion_sensor_number = v2, intrusion_sensor_re_arm = v3\<rparr>)))"

text \<open>
  The sub-fields of \<^verbatim>\<open>common.StatusField\<close> are declared outside this module; the
  status resolves to its raw sub-document.
\<close>

definition StatusField_subfields :: "json \<Rightarrow> string \<Rightarrow> 'c error + json" where
  "StatusField_subfields body resource = Inr body"

text \<open>
  The attribute declarations of the class \<^verbatim>\<open>Chassis\<close>, resolved in the order of
  the class body against the document \<open>doc\<close> of the resource at \<open>p\<close>.
\<close>

definition parse_attributes ::
  "'c cha_maps \<Rightarrow> 'c res_maps \<Rightarrow> common \<Rightarrow> string \<Rightarrow> string option \<Rightarrow> json \<Rightarrow> 'c error + 'c Chassis" where
  "parse_attributes cm rm cmn p version doc =
     and_then (MappedField ''ChassisType'' (CHASSIS_TYPE_VALUE_MAP cm) True doc p) (\<lambda>a_chassis_type.
     and_then (Field ''Id'' True doc p) (\<lambda>a_identity.
     and_then (Field ''Name'' True doc p) (\<lambda>a_name.
     and_then (Field ''AssetTag'' False doc p) (\<lambda>a_asset_tag.
     and_then (Field ''DepthMm'' False doc p) (\<lambda>a_depth_mm.
     and_then (Field ''Description'' False doc p) (\<lambda>a_description.
     and_then (Field ''HeightMm'' False doc p) (\<lambda>a_height_mm.
     and_then (MappedField ''IndicatorLED'' (INDICATOR_LED_VALUE_MAP rm) False doc p) (\<lambda>a_indicator_led.
     and_then (Field ''Manufacturer'' False doc p) (\<lambda>a_manufacturer.
     and_then (Field ''Model'' False doc p) (\<lambda>a_model.
     and_then (Field ''PartNumber'' False doc p) (\<lambda>a_part_number.
     and_then (CompositeField ''PhysicalSecurity'' (PhysicalSecurity_subfields cm) doc p)
       (\<lambda>a_physical_security.
     and_then (MappedField ''PowerState'' (POWER_STATE_VALUE_MAP rm) False doc p) (\<lambda>a_power_state.
     and_then (Field ''SerialNumber'' False doc p) (\<lambda>a_serial_number.
     and_then (Field ''SKU'' False doc p) (\<lambda>a_sku.
     and_then (CompositeField ''Status'' StatusField_subfields doc p) (\<lambda>a_status.
     and_then (Field ''UUID'' False doc p) (\<lambda>a_uuid.
     and_then (Field ''WeightKg'' False doc p) (\<lambda>a_weight_kg.
     and_then (Field ''WidthMm'' False doc p) (\<lambda>a_width_mm.
     and_then (CompositeField ''Actions'' (ActionsField_subfields cmn) doc p) (\<lambda>a_actions.
     Inr \<lparr>path = p, redfish_version = version, json_doc = doc,
          chassis_type = a_chassis_type, identity = a_identity, name = a_name,
          asset_tag = a_asset_tag, depth_mm = a_depth_mm, description = a_description,
          height_mm = a_height_mm, indicator_led = a_indicator_led,
          manufacturer = a_manufacturer, model = a_model, part_number = a_part_number,
          physical_security = a_physical_security, power_state = a_power_state,
          serial_number = a_serial_number, sku = a_sku, status = a_status, uuid = a_uuid,
          weight_kg = a_weight_kg, width_mm = a_width_mm,
          actions = a_actions\<rparr>))))))))))))))))))))"

text \<open>
  Modelled from the spec: the constructor of the resource base class, which
  \<^verbatim>\<open>Chassis.__init__\<close> calls with its own arguments. It fetches the document at the
  path \<open>p\<close> with one GET and resolves every declared attribute against it; a failure of
  the connector propagates.
\<close>

definition Chassis_init ::
  "'c cha_maps \<Rightarrow> 'c res_maps \<Rightarrow> common \<Rightarrow> connector \<Rightarrow> string \<Rightarrow> string option
     \<Rightarrow> ('c error + 'c Chassis) \<times> connector" where
  "Chassis_init cm rm cmn connector p version =
     (let connector' = connector\<lparr>calls := calls connector @ [GET p]\<rparr>
      in case get_response connector p of
           Inl e \<Rightarrow> (Inl (ConnectionError e), connector')
         | Inr doc \<Rightarrow> (parse_attributes cm rm cmn p version doc, connector'))"

text \<open>
  The document \<open>doc\<close> without its member \<open>k\<close>, and a connector that answers every
  GET with the document \<open>doc\<close>: the inputs on which the properties of loading are
  stated.
\<close>

definition without_key :: "string \<Rightarrow> json \<Rightarrow> json" where
  "without_key k doc =
     (case doc of JObj kvs \<Rightarrow> JObj (filter (\<lambda>kv. fst kv \<noteq> k) kvs) | _ \<Rightarrow> doc)"

definition serving :: "json \<Rightarrow> connector" where
  "serving doc =
     \<lparr>calls = [], get_response = (\<lambda>p. Inr doc), post_response = (\<lambda>uri data. Inr JNull)\<rparr>"

subsection \<open>Sample data\<close>

text \<open>
  A small instance of the parameters, on which the theorems below are evaluated: reset
  tables with four entries, the keys of the action descriptor as the Redfish schema
  names them, and a chassis whose attributes beyond the actions are left empty.
\<close>

definition sample_res_maps :: "string res_maps" where
  "sample_res_maps =
     \<lparr>INDICATOR_LED_VALUE_MAP = [(''Lit'', ''indicator led lit''), (''Off'', ''indicator led off'')],
      POWER_STATE_VALUE_MAP = [(''On'', ''on''), (''Off'', ''off'')],
      RESET_TYPE_VALUE_MAP =
        [(''On'', ''on''), (''ForceOff'', ''force off''),
         (''GracefulShutdown'', ''graceful shutdown''), (''ForceRestart'', ''force restart'')],
      RESET_TYPE_VALUE_MAP_REV =
        [(''on'', ''On''), (''force off'', ''ForceOff''),
         (''graceful shutdown'', ''GracefulShutdown''), (''force restart'', ''ForceRestart'')]\<rparr>"

definition sample_cha_maps :: "string cha_maps" where
  "sample_cha_maps =
     \<lparr>CHASSIS_TYPE_VALUE_MAP = [(''Rack'', ''rack chassis type''), (''Blade'', ''blade chassis type'')],
      CHASSIS_INTRUSION_SENSOR_MAP = [(''Normal'', ''normal chassis intrusion sensor'')],
      CHASSIS_INTRUSION_SENSOR_RE_ARM_MAP = [(''Manual'', ''manual re arm chassis intrusion sensor'')]\<rparr>"

definition sample_common :: common where
  "sample_common =
     \<lparr>target_key = ''target'', allowed_values_key = ''ResetType@Redfish.AllowableValues''\<rparr>"

definition sample_connector :: connector where
  "sample_connector =
     \<lparr>calls = [], get_response = (\<lambda>p. Inl ''not found''), post_response = (\<lambda>uri data. Inr JNull)\<rparr>"

definition sample_chassis :: "ActionsField option \<Rightarrow> string Chassis" where
  "sample_chassis a =
     \<lparr>path = ''/redfish/v1/Chassis/Blade1'', redfish_version = None,
      json_doc = JObj [], chassis_type = Some (Known ''blade chassis type''),
      identity = Some (JStr ''Blade1''), name = Some (JStr ''Blade''),
      asset_tag = None, depth_mm = None, description = None, height_mm = None,
      indicator_led = None, manufacturer = None, model = None, part_number = None,
      physical_security = None, power_state = None, serial_number = None, sku = None,
      status = None, uuid = None, weight_kg = None, width_mm = None, actions = a\<rparr>"

definition sample_reset :: "string list option \<Rightarrow> ActionsField option" where
  "sample_reset vs =
     Some \<lparr>reset = Some \<lparr>target_uri = ''/redfish/v1/Chassis/Blade1/Actions/Chassis.Reset'',
                           allowed_values = vs\<rparr>\<rparr>"

definition sample_state :: "ActionsField option \<Rightarrow> string state" where
  "sample_state a = \<lparr>self = sample_chassis a, conn = sample_connector, LOG = []\<rparr>"

text \<open>
  A document with the three required members and nothing else, and one that also
  declares the reset action.
\<close>

definition sample_doc :: json where
  "sample_doc =
     JObj [(''Id'', JStr ''Blade1''), (''Name'', JStr ''Blade''), (''ChassisType'', JStr ''Blade'')]"

definition sample_doc_reset :: json where
  "sample_doc_reset =
     JObj [(''Id'', JStr ''Blade1''), (''Name'', JStr ''Blade''), (''ChassisType'', JStr ''Blade''),
           (''AssetTag'', JStr ''45Z-2381''),
           (''Actions'',
            JObj [(''#Chassis.Reset'',
                   JObj [(''target'', JStr ''/redfish/v1/Chassis/Blade1/Actions/Chassis.Reset''),
                         (''ResetType@Redfish.AllowableValues'',
                          JArr [JStr ''GracefulShutdown'', JStr ''ForceOff''])])])]"

section \<open>Properties of the reset protocol\<close>

subsection \<open>Dictionary reads that cannot fail\<close>

lemma set_keys: "set (keys d) = fst ` set d"
  by (simp add: keys_def)

lemma set_intersection: "set (intersection ks vs) = set ks \<inter> set vs"
  by (auto simp: intersection_def)

lemma getitem_key:
  "k \<in> fst ` set d \<Longrightarrow> \<exists>v. map_of d k = Some v \<and> (getitem d k :: 'c error + 'v) = Inr v"
  by (cases "map_of d k") (auto simp: getitem_def map_of_eq_None_iff)

lemma getitems_keys:
  "set vs \<subseteq> fst ` set d \<Longrightarrow>
     \<exists>cs. (getitems d vs :: 'c error + 'v list) = Inr cs \<and>
          set cs = {c. \<exists>v \<in> set vs. map_of d v = Some c}"
proof (induction vs)
  case Nil
  then show ?case by simp
next
  case (Cons v vs)
  from Cons.prems have "v \<in> fst ` set d" by simp
  from getitem_key [OF this, where ?'c = 'c]
  obtain x where x: "map_of d v = Some x" and gx: "(getitem d v :: 'c error + 'v) = Inr x"
    by (elim exE conjE)
  from Cons.prems have "set vs \<subseteq> fst ` set d" by simp
  from Cons.IH [OF this] obtain cs where cs: "(getitems d vs :: 'c error + 'v list) = Inr cs"
      and scs: "set cs = {c. \<exists>v \<in> set vs. map_of d v = Some c}"
    by (elim exE conjE)
  have "(getitems d (v # vs) :: 'c error + 'v list) = Inr (x # cs)"
    by (simp add: gx cs)
  moreover have "set (x # cs) = {c. \<exists>u \<in> set (v # vs). map_of d u = Some c}"
    by (auto simp: scs x)
  ultimately show ?case by blast
qed

lemma getitems_intersection:
  "\<exists>cs. (getitems d (intersection (keys d) vs) :: 'c error + 'v list) = Inr cs \<and>
        set cs = {c. \<exists>v \<in> set (keys d) \<inter> set vs. map_of d v = Some c}"
proof -
  have "set (intersection (keys d) vs) \<subseteq> fst ` set d"
    by (auto simp: set_intersection set_keys)
  from getitems_keys [OF this, where ?'c = 'c] show ?thesis
    by (simp only: set_intersection)
qed

subsection \<open>The allowed reset values\<close>

lemma populated_branch:
  fixes rm :: "'c res_maps" and s :: "'c state"
  assumes "actions (self s) = Some a" and "reset a = Some ra"
    and "allowed_values ra = Some vs" and "vs \<noteq> []"
  shows "get_allowed_reset_chassis_values rm s =
           (Inr {c. \<exists>v \<in> set (keys (RESET_TYPE_VALUE_MAP rm)) \<inter> set vs.
                      map_of (RESET_TYPE_VALUE_MAP rm) v = Some c}, s)"
proof -
  have el: "get_reset_action_element (self s) = Inr ra"
    using assms(1,2) by (simp add: get_reset_action_element_def)
  obtain cs where cs: "(getitems (RESET_TYPE_VALUE_MAP rm)
        (intersection (keys (RESET_TYPE_VALUE_MAP rm)) vs) :: 'c error + 'c list) = Inr cs"
    and scs: "set cs = {c. \<exists>v \<in> set (keys (RESET_TYPE_VALUE_MAP rm)) \<inter> set vs.
                      map_of (RESET_TYPE_VALUE_MAP rm) v = Some c}"
    using getitems_intersection [of "RESET_TYPE_VALUE_MAP rm" vs, where ?'c = 'c]
    by (elim exE conjE)
  show ?thesis
    by (simp add: get_allowed_reset_chassis_values_def el assms(3,4) cs scs)
qed

lemma element_present:
  "actions c = Some a \<Longrightarrow> reset a = Some ra \<Longrightarrow> get_reset_action_element c = Inr ra"
  by (simp add: get_reset_action_element_def)

lemma allowed_frame:
  "get_allowed_reset_chassis_values rm s = (r, s') \<Longrightarrow> self s' = self s \<and> conn s' = conn s"
  by (auto simp: get_allowed_reset_chassis_values_def log_msg_def Let_def
      split: sum.splits option.splits if_splits)

lemma allowed_element:
  "get_allowed_reset_chassis_values rm s = (Inr valid_resets, s') \<Longrightarrow>
     \<exists>ra. get_reset_action_element (self s) = Inr ra"
  by (auto simp: get_allowed_reset_chassis_values_def split: sum.splits)

lemma inverse_lookup:
  "exact_inverses forward reverse \<Longrightarrow> map_of forward w = Some c \<Longrightarrow> map_of reverse c = Some w"
proof -
  assume inv: "exact_inverses forward reverse" and fw: "map_of forward w = Some c"
  from fw have "(w, c) \<in> set forward" by (rule map_of_SomeD)
  with inv have "map_of forward w = Some c \<longrightarrow> map_of reverse c = Some w"
    by (auto simp: exact_inverses_def list_all_iff)
  with fw show ?thesis by simp
qed

lemma lookup_in_keys: "map_of d k = Some v \<Longrightarrow> k \<in> set (keys d)"
  by (force simp: set_keys dest: map_of_SomeD)

lemma allowed_within_universe:
  fixes rm :: "'c res_maps" and s :: "'c state"
  assumes inv: "exact_inverses (RESET_TYPE_VALUE_MAP rm) (RESET_TYPE_VALUE_MAP_REV rm)"
    and ok: "get_allowed_reset_chassis_values rm s = (Inr valid_resets, s')"
  shows "valid_resets \<subseteq> set (keys (RESET_TYPE_VALUE_MAP_REV rm))"
proof -
  from allowed_element [OF ok] obtain ra where el: "get_reset_action_element (self s) = Inr ra"
    by blast
  show ?thesis
  proof (cases "allowed_values ra = None \<or> allowed_values ra = Some []")
    case True
    then show ?thesis
      using ok el by (auto simp: get_allowed_reset_chassis_values_def)
  next
    case False
    then obtain vs where vs: "allowed_values ra = Some vs" "vs \<noteq> []"
      by auto
    obtain a where a: "actions (self s) = Some a" "reset a = Some ra"
      using el by (auto simp: get_reset_action_element_def split: option.splits)
    have "valid_resets = {c. \<exists>v \<in> set (keys (RESET_TYPE_VALUE_MAP rm)) \<inter> set vs.
                      map_of (RESET_TYPE_VALUE_MAP rm) v = Some c}"
      using populated_branch [OF a vs, of rm] ok by simp
    moreover have "c \<in> set (keys (RESET_TYPE_VALUE_MAP_REV rm))"
      if "map_of (RESET_TYPE_VALUE_MAP rm) v = Some c" for v c
      using inverse_lookup [OF inv that] by (rule lookup_in_keys)
    ultimately show ?thesis by blast
  qed
qed




subsection \<open>The reverse of a one-to-one table\<close>

lemma reverse_table_keys: "map fst (reverse_table t) = map snd t"
  by (induction t) (auto simp: reverse_table_def)

lemma reverse_table_lookup:
  assumes "distinct (map snd t)" and "map_of t w = Some c"
  shows "map_of (reverse_table t) c = Some w"
proof -
  from assms(2) have "(w, c) \<in> set t" by (rule map_of_SomeD)
  then have "(c, w) \<in> set (reverse_table t)"
    by (force simp: reverse_table_def)
  moreover have "distinct (map fst (reverse_table t))"
    using assms(1) by (simp add: reverse_table_keys)
  ultimately show ?thesis by (rule map_of_is_SomeI [rotated])
qed

lemma reverse_table_inverses:
  assumes "distinct (map fst t)" and "distinct (map snd t)"
  shows "exact_inverses t (reverse_table t)"
proof -
  have "map_of t w = Some c" if "(c, w) \<in> set (reverse_table t)" for c w
  proof -
    from that have "(w, c) \<in> set t" by (auto simp: reverse_table_def)
    with assms(1) show ?thesis by (rule map_of_is_SomeI)
  qed
  then show ?thesis
    using reverse_table_lookup [OF assms(2)]
    by (auto simp: exact_inverses_def list_all_iff)
qed

text \<open>
  The condition is needed: when two wire strings share a constant, the reverse table
  answers with the first of them.
\<close>

lemma repeated_constant_breaks_round_trip:
  "map_of [(''On'', c), (''ForceOn'', c)] ''ForceOn'' = Some c \<and>
   map_of (reverse_table [(''On'', c), (''ForceOn'', c)]) c = Some ''On''"
  by (simp add: reverse_table_def)

subsection \<open>The sample data evaluated\<close>

lemmas sample_defs =
  sample_state_def sample_reset_def sample_chassis_def sample_res_maps_def sample_connector_def

lemma sample_inverses:
  "exact_inverses (RESET_TYPE_VALUE_MAP sample_res_maps) (RESET_TYPE_VALUE_MAP_REV sample_res_maps)"
  by (simp add: exact_inverses_def sample_res_maps_def)



lemma sample_allowed:
  "get_allowed_reset_chassis_values sample_res_maps
     (sample_state (sample_reset (Some [''GracefulShutdown'', ''ForceOff''])))
   = (Inr {''graceful shutdown'', ''force off''},
      sample_state (sample_reset (Some [''GracefulShutdown'', ''ForceOff''])))"
proof -
  have "{c. \<exists>v \<in> set (keys (RESET_TYPE_VALUE_MAP sample_res_maps)) \<inter> set [''GracefulShutdown'', ''ForceOff''].
             map_of (RESET_TYPE_VALUE_MAP sample_res_maps) v = Some c}
        = {''graceful shutdown'', ''force off''}"
    by (auto simp: sample_res_maps_def keys_def)
  then show ?thesis
    using populated_branch [of "sample_state (sample_reset (Some [''GracefulShutdown'', ''ForceOff'']))"
        "\<lparr>reset = Some \<lparr>target_uri = ''/redfish/v1/Chassis/Blade1/Actions/Chassis.Reset'',
                           allowed_values = Some [''GracefulShutdown'', ''ForceOff'']\<rparr>\<rparr>"
        "\<lparr>target_uri = ''/redfish/v1/Chassis/Blade1/Actions/Chassis.Reset'',
                           allowed_values = Some [''GracefulShutdown'', ''ForceOff'']\<rparr>"
        "[''GracefulShutdown'', ''ForceOff'']" sample_res_maps]
    by (simp add: sample_state_def sample_reset_def sample_chassis_def)
qed

subsection \<open>The specified behaviour of the reset protocol\<close>

text \<open>
  C1. When the reset action descriptor is present and its list of allowed values is not
  empty, \<^verbatim>\<open>get_allowed_reset_chassis_values\<close> returns exactly the constants that
  the reset table gives to the wire values occurring both among the keys of the table
  and in the list; it raises nothing and changes nothing.
\<close>

theorem allowed_values_populated:
  fixes rm :: "'c res_maps" and s :: "'c state"
  assumes "actions (self s) = Some a" and "reset a = Some ra"
    and "allowed_values ra = Some vs" and "vs \<noteq> []"
  shows "get_allowed_reset_chassis_values rm s =
           (Inr {c. \<exists>v \<in> set (keys (RESET_TYPE_VALUE_MAP rm)) \<inter> set vs.
                      map_of (RESET_TYPE_VALUE_MAP rm) v = Some c}, s)"
  using assms by (rule populated_branch)

theorem allowed_values_populated_witness:
  "get_allowed_reset_chassis_values sample_res_maps
     (sample_state (sample_reset (Some [''GracefulShutdown'', ''ForceOff''])))
   = (Inr {''graceful shutdown'', ''force off''},
      sample_state (sample_reset (Some [''GracefulShutdown'', ''ForceOff''])))"
proof -
  have "{c. \<exists>v \<in> set (keys (RESET_TYPE_VALUE_MAP sample_res_maps)) \<inter> set [''GracefulShutdown'', ''ForceOff''].
             map_of (RESET_TYPE_VALUE_MAP sample_res_maps) v = Some c}
        = {''graceful shutdown'', ''force off''}"
    by (auto simp: sample_res_maps_def keys_def)
  then show ?thesis
    using allowed_values_populated [of "sample_state (sample_reset (Some [''GracefulShutdown'', ''ForceOff'']))"
        "\<lparr>reset = Some \<lparr>target_uri = ''/redfish/v1/Chassis/Blade1/Actions/Chassis.Reset'',
                           allowed_values = Some [''GracefulShutdown'', ''ForceOff'']\<rparr>\<rparr>"
        "\<lparr>target_uri = ''/redfish/v1/Chassis/Blade1/Actions/Chassis.Reset'',
                           allowed_values = Some [''GracefulShutdown'', ''ForceOff'']\<rparr>"
        "[''GracefulShutdown'', ''ForceOff'']" sample_res_maps]
    by (simp add: sample_state_def sample_reset_def sample_chassis_def)
qed

text \<open>
  C2. When the reset action descriptor is present and its list of allowed values is
  absent or empty, \<^verbatim>\<open>get_allowed_reset_chassis_values\<close> does not raise: it
  returns every key of the reverse reset table, the full universe of reset constants,
  and the only effect is one record of level WARNING appended to the log.
\<close>

theorem allowed_values_unknown_fallback:
  fixes rm :: "'c res_maps" and s :: "'c state"
  assumes "actions (self s) = Some a" and "reset a = Some ra"
    and "allowed_values ra = None \<or> allowed_values ra = Some []"
  shows "get_allowed_reset_chassis_values rm s =
           (Inr (set (keys (RESET_TYPE_VALUE_MAP_REV rm))),
            s\<lparr>LOG := LOG s @
               [(WARNING,
                 ''Could not figure out the allowed values for the reset chassis action for Chassis %s'',
                 identity (self s))]\<rparr>)"
  using assms(3) element_present [OF assms(1,2)]
  by (auto simp: get_allowed_reset_chassis_values_def log_msg_def)

theorem allowed_values_unknown_fallback_witness:
  "fst (get_allowed_reset_chassis_values sample_res_maps (sample_state (sample_reset (Some []))))
     = Inr {''on'', ''force off'', ''graceful shutdown'', ''force restart''} \<and>
   LOG (snd (get_allowed_reset_chassis_values sample_res_maps (sample_state (sample_reset None))))
     = [(WARNING,
         ''Could not figure out the allowed values for the reset chassis action for Chassis %s'',
         Some (JStr ''Blade1''))]"
  using allowed_values_unknown_fallback [of "sample_state (sample_reset (Some []))"
        "\<lparr>reset = Some \<lparr>target_uri = ''/redfish/v1/Chassis/Blade1/Actions/Chassis.Reset'',
                           allowed_values = Some []\<rparr>\<rparr>"
        "\<lparr>target_uri = ''/redfish/v1/Chassis/Blade1/Actions/Chassis.Reset'',
                           allowed_values = Some []\<rparr>" sample_res_maps]
    allowed_values_unknown_fallback [of "sample_state (sample_reset None)"
        "\<lparr>reset = Some \<lparr>target_uri = ''/redfish/v1/Chassis/Blade1/Actions/Chassis.Reset'',
                           allowed_values = None\<rparr>\<rparr>"
        "\<lparr>target_uri = ''/redfish/v1/Chassis/Blade1/Actions/Chassis.Reset'',
                           allowed_values = None\<rparr>" sample_res_maps]
  by (auto simp: sample_defs keys_def)

text \<open>
  C3. When the allowed set is computed and the value given to \<^verbatim>\<open>reset_chassis\<close>
  is not in it, \<^verbatim>\<open>reset_chassis\<close> raises \<^verbatim>\<open>InvalidParameterValueError\<close> with
  the parameter name \<^verbatim>\<open>value\<close>, the value and the allowed set, and the connector
  is left as it was: no request is issued.
\<close>

theorem reset_chassis_rejects_invalid:
  fixes rm :: "'c res_maps" and s :: "'c state"
  assumes "get_allowed_reset_chassis_values rm s = (Inr valid_resets, s')"
    and "v \<notin> valid_resets"
  shows "reset_chassis rm v s = (Inl (InvalidParameterValueError ''value'' v valid_resets), s') \<and>
         conn s' = conn s"
  using assms allowed_frame [OF assms(1)]
  by (simp add: reset_chassis_def)

theorem reset_chassis_rejects_invalid_witness:
  "fst (reset_chassis sample_res_maps ''on'' (sample_state (sample_reset (Some [''GracefulShutdown'', ''ForceOff'']))))
     = Inl (InvalidParameterValueError ''value'' ''on'' {''graceful shutdown'', ''force off''}) \<and>
   calls (conn (snd (reset_chassis sample_res_maps ''on'' (sample_state (sample_reset (Some [''GracefulShutdown'', ''ForceOff''])))))) = []"
proof -
  have "''on'' \<notin> {''graceful shutdown'', ''force off''}" by simp
  from reset_chassis_rejects_invalid [OF sample_allowed this] show ?thesis
    by (simp add: sample_defs)
qed





text \<open>
  C8. \<^verbatim>\<open>get_allowed_reset_chassis_values\<close> has no effect on the resource or on the
  connector: the resource, with its stored document and resolved attributes, and the
  connector, with the requests it has issued, are the same after the call, whatever
  the call returns or raises.
\<close>

theorem get_allowed_no_side_effect:
  "self (snd (get_allowed_reset_chassis_values rm s)) = self s \<and>
   conn (snd (get_allowed_reset_chassis_values rm s)) = conn s"
  using allowed_frame [of rm s "fst (get_allowed_reset_chassis_values rm s)"
      "snd (get_allowed_reset_chassis_values rm s)"]
  by simp

theorem get_allowed_no_side_effect_witness:
  "self (snd (get_allowed_reset_chassis_values sample_res_maps (sample_state (sample_reset None))))
     = sample_chassis (sample_reset None) \<and>
   calls (conn (snd (get_allowed_reset_chassis_values sample_res_maps
      (sample_state (sample_reset None))))) = []"
  using get_allowed_no_side_effect [of sample_res_maps "sample_state (sample_reset None)"]
  by (simp add: sample_state_def sample_connector_def)

text \<open>
  C9. When the list of allowed values is not empty and none of its wire strings is a
  key of the reset table, \<^verbatim>\<open>get_allowed_reset_chassis_values\<close> returns the empty
  set and leaves the state, log included, as it was; \<^verbatim>\<open>reset_chassis\<close> then raises
  \<^verbatim>\<open>InvalidParameterValueError\<close> for every value.
\<close>

theorem unknown_allowed_values_reject_all:
  fixes rm :: "'c res_maps" and s :: "'c state"
  assumes a: "actions (self s) = Some a" "reset a = Some ra"
    and vs: "allowed_values ra = Some vs" "vs \<noteq> []"
    and unknown: "set vs \<inter> set (keys (RESET_TYPE_VALUE_MAP rm)) = {}"
  shows "get_allowed_reset_chassis_values rm s = (Inr {}, s) \<and>
         (\<forall>v. reset_chassis rm v s = (Inl (InvalidParameterValueError ''value'' v {}), s))"
proof -
  have "{c. \<exists>v \<in> set (keys (RESET_TYPE_VALUE_MAP rm)) \<inter> set vs.
            map_of (RESET_TYPE_VALUE_MAP rm) v = Some c} = {}"
    using unknown by auto
  with populated_branch [OF a vs, of rm]
  have ok: "get_allowed_reset_chassis_values rm s = (Inr {}, s)"
    by simp
  then show ?thesis
    by (simp add: reset_chassis_def)
qed

theorem unknown_allowed_values_reject_all_witness:
  "get_allowed_reset_chassis_values sample_res_maps
     (sample_state (sample_reset (Some [''OemPowerCycle''])))
   = (Inr {}, sample_state (sample_reset (Some [''OemPowerCycle'']))) \<and>
   reset_chassis sample_res_maps ''on'' (sample_state (sample_reset (Some [''OemPowerCycle''])))
   = (Inl (InvalidParameterValueError ''value'' ''on'' {}),
      sample_state (sample_reset (Some [''OemPowerCycle''])))"
  using unknown_allowed_values_reject_all [of "sample_state (sample_reset (Some [''OemPowerCycle'']))"
        "\<lparr>reset = Some \<lparr>target_uri = ''/redfish/v1/Chassis/Blade1/Actions/Chassis.Reset'',
                           allowed_values = Some [''OemPowerCycle'']\<rparr>\<rparr>"
        "\<lparr>target_uri = ''/redfish/v1/Chassis/Blade1/Actions/Chassis.Reset'',
                           allowed_values = Some [''OemPowerCycle'']\<rparr>"
        "[''OemPowerCycle'']" sample_res_maps]
  by (simp add: sample_defs keys_def)

text \<open>
  C10. When the reset tables are inverses of each other, every set that
  \<^verbatim>\<open>get_allowed_reset_chassis_values\<close> returns is a subset of the keys of the
  reverse reset table, in the populated branch and in the fallback branch.
\<close>

theorem allowed_values_within_universe:
  fixes rm :: "'c res_maps" and s :: "'c state"
  assumes "exact_inverses (RESET_TYPE_VALUE_MAP rm) (RESET_TYPE_VALUE_MAP_REV rm)"
    and "get_allowed_reset_chassis_values rm s = (Inr valid_resets, s')"
  shows "valid_resets \<subseteq> set (keys (RESET_TYPE_VALUE_MAP_REV rm))"
  using assms by (rule allowed_within_universe)

theorem allowed_values_within_universe_witness:
  "{''graceful shutdown'', ''force off''}
     \<subseteq> set (keys (RESET_TYPE_VALUE_MAP_REV sample_res_maps))"
  using allowed_values_within_universe [OF sample_inverses sample_allowed]
  by simp

section \<open>Properties of loading\<close>

subsection \<open>What each field descriptor resolves to\<close>

lemma and_then_simps:
  "and_then (Inr x) f = f x" "and_then (Inl e) f = Inl e"
  by (simp_all add: and_then_def)

lemma Field_optional: "Field k False body resource = Inr (json_get body k)"
  by (simp add: Field_def split: option.split)

lemma Field_required:
  "Field k True body resource =
     (case json_get body k of
        None \<Rightarrow> Inl (MissingAttributeError k resource)
      | Some v \<Rightarrow> Inr (Some v))"
  by (simp add: Field_def split: option.split)

lemma MappedField_optional:
  "MappedField k m False body resource = Inr (map_option (to_constant m) (json_get body k))"
  by (simp add: MappedField_def Field_optional and_then_simps)

lemma MappedField_required:
  "MappedField k m True body resource =
     (case json_get body k of
        None \<Rightarrow> Inl (MissingAttributeError k resource)
      | Some v \<Rightarrow> Inr (Some (to_constant m v)))"
  by (simp add: MappedField_def Field_required and_then_simps split: option.split)

lemma PhysicalSecurity_total:
  "CompositeField k (PhysicalSecurity_subfields cm) body resource =
     Inr (map_option
            (\<lambda>sub. \<lparr>intrusion_sensor =
                       map_option (to_constant (CHASSIS_INTRUSION_SENSOR_MAP cm))
                         (json_get sub ''IntrusionSensor''),
                     intrusion_sensor_number = json_get sub ''IntrusionSensorNumber'',
                     intrusion_sensor_re_arm =
                       map_option (to_constant (CHASSIS_INTRUSION_SENSOR_RE_ARM_MAP cm))
                         (json_get sub ''IntrusionSensorReArm'')\<rparr>)
            (json_get body k))"
  by (simp add: CompositeField_def PhysicalSecurity_subfields_def MappedField_optional
      Field_optional and_then_simps split: option.split)

lemma Status_total:
  "CompositeField k StatusField_subfields body resource = Inr (json_get body k)"
  by (simp add: CompositeField_def StatusField_subfields_def and_then_simps split: option.split)

lemma Actions_cases:
  "(\<exists>a. (CompositeField k (ActionsField_subfields cmn) body resource
           :: 'c error + ActionsField option) = Inr a) \<or>
   (CompositeField k (ActionsField_subfields cmn) body resource
      :: 'c error + ActionsField option) =
     Inl (MissingAttributeError (target_key cmn) resource)"
  by (auto simp: CompositeField_def ActionsField_subfields_def ResetActionField_subfields_def
      and_then_def split: option.split json.split sum.split)

lemmas load_simps =
  and_then_simps Field_optional MappedField_optional PhysicalSecurity_total Status_total
  Field_required MappedField_required

lemma parse_ok_iff:
  fixes cm :: "'c cha_maps"
  shows "(\<exists>c. parse_attributes cm rm cmn p version doc = Inr c) \<longleftrightarrow>
     json_get doc ''ChassisType'' \<noteq> None \<and> json_get doc ''Id'' \<noteq> None \<and>
     json_get doc ''Name'' \<noteq> None \<and>
     (\<exists>a. (CompositeField ''Actions'' (ActionsField_subfields cmn) doc p
            :: 'c error + ActionsField option) = Inr a)"
proof (cases "CompositeField ''Actions'' (ActionsField_subfields cmn) doc p
                :: 'c error + ActionsField option")
  case (Inl e)
  then show ?thesis
    by (simp add: parse_attributes_def load_simps split: option.split)
next
  case (Inr a)
  then show ?thesis
    by (simp add: parse_attributes_def load_simps split: option.split)
qed

lemma parse_error:
  fixes cm :: "'c cha_maps"
  assumes "parse_attributes cm rm cmn p version doc = Inl e"
  shows "\<exists>a. e = MissingAttributeError a p"
proof (cases "CompositeField ''Actions'' (ActionsField_subfields cmn) doc p
                :: 'c error + ActionsField option")
  case (Inl e')
  with Actions_cases [of "''Actions''" cmn doc p, where ?'c = 'c]
  have "(CompositeField ''Actions'' (ActionsField_subfields cmn) doc p
           :: 'c error + ActionsField option) =
          Inl (MissingAttributeError (target_key cmn) p)"
    by simp
  with assms show ?thesis
    by (auto simp: parse_attributes_def load_simps split: option.splits)
next
  case (Inr a)
  with assms show ?thesis
    by (auto simp: parse_attributes_def load_simps split: option.splits)
qed


lemma map_of_without: "map_of (filter (\<lambda>kv. fst kv \<noteq> k) kvs) q = (if q = k then None else map_of kvs q)"
  by (induction kvs) auto

lemma json_get_without:
  "json_get (without_key k doc) q = (if q = k then None else json_get doc q)"
  by (cases doc) (simp_all add: json_get_def without_key_def map_of_without)

lemma Chassis_init_serving:
  "fst (Chassis_init cm rm cmn (serving doc) p version) = parse_attributes cm rm cmn p version doc"
  by (simp add: Chassis_init_def serving_def)

lemma Actions_without:
  fixes dummy :: "'c"
  assumes "(CompositeField ''Actions'' (ActionsField_subfields cmn) doc p
              :: 'c error + ActionsField option) = Inr a"
  shows "\<exists>a'. (CompositeField ''Actions'' (ActionsField_subfields cmn) (without_key k doc) p
                 :: 'c error + ActionsField option) = Inr a'"
  using assms by (simp add: CompositeField_def json_get_without)

lemma no_actions_attribute_error:
  "actions (self s) = None \<Longrightarrow>
     get_allowed_reset_chassis_values rm s = (Inl (AttributeError ''reset''), s)"
  by (simp add: get_allowed_reset_chassis_values_def get_reset_action_element_def)

lemma no_reset_missing_action:
  "actions (self s) = Some a \<Longrightarrow> reset a = None \<Longrightarrow>
     get_allowed_reset_chassis_values rm s =
       (Inl (MissingActionError ''#Chassis.Reset'' (path (self s))), s)"
  by (simp add: get_allowed_reset_chassis_values_def get_reset_action_element_def)

lemma reset_chassis_propagates:
  "get_allowed_reset_chassis_values rm s = (Inl e, s') \<Longrightarrow> reset_chassis rm v s = (Inl e, s')"
  by (simp add: reset_chassis_def)

lemma parse_actions_absent:
  fixes cm :: "'c cha_maps"
  assumes "json_get doc ''Actions'' = None"
    and "parse_attributes cm rm cmn p version doc = Inr c"
  shows "actions c = None"
proof -
  have "(CompositeField ''Actions'' (ActionsField_subfields cmn) doc p
           :: 'c error + ActionsField option) = Inr None"
    using assms(1) by (simp add: CompositeField_def)
  with assms(2) show ?thesis
    by (auto simp: parse_attributes_def load_simps split: option.splits)
qed

lemma sample_doc_loads:
  "\<exists>c. parse_attributes sample_cha_maps sample_res_maps sample_common
          ''/redfish/v1/Chassis/Blade1'' None sample_doc = Inr c"
  by (simp add: parse_ok_iff sample_doc_def json_get_def CompositeField_def)

lemma sample_doc_members:
  "json_get sample_doc q =
     map_of [(''Id'', JStr ''Blade1''), (''Name'', JStr ''Blade''), (''ChassisType'', JStr ''Blade'')] q"
  by (simp add: sample_doc_def json_get_def)

subsection \<open>The specified behaviour of loading\<close>

text \<open>
  C5. A document with the three required members and no \<^verbatim>\<open>Actions\<close> member loads,
  and its \<^verbatim>\<open>_actions\<close> attribute is \<^verbatim>\<open>None\<close>. On the loaded chassis
  \<^verbatim>\<open>get_allowed_reset_chassis_values\<close> and \<^verbatim>\<open>reset_chassis\<close> raise
  \<^verbatim>\<open>AttributeError\<close> from the read of \<^verbatim>\<open>self._actions.reset\<close>, and not
  \<^verbatim>\<open>MissingActionError\<close>, which is raised only when the \<^verbatim>\<open>Actions\<close> member is
  present without \<^verbatim>\<open>#Chassis.Reset\<close> (lemma \<open>no_reset_missing_action\<close>).
\<close>

theorem missing_actions_key_attribute_error:
  "\<exists>c. fst (Chassis_init sample_cha_maps sample_res_maps sample_common (serving sample_doc)
              ''/redfish/v1/Chassis/Blade1'' None) = Inr c \<and>
        fst (get_allowed_reset_chassis_values sample_res_maps
               \<lparr>self = c, conn = serving sample_doc, LOG = []\<rparr>) = Inl (AttributeError ''reset'') \<and>
        fst (reset_chassis sample_res_maps ''on''
               \<lparr>self = c, conn = serving sample_doc, LOG = []\<rparr>) = Inl (AttributeError ''reset'')"
proof -
  from sample_doc_loads obtain c :: "string Chassis" where
    c: "parse_attributes sample_cha_maps sample_res_maps sample_common
          ''/redfish/v1/Chassis/Blade1'' None sample_doc = Inr c"
    by blast
  have "json_get sample_doc ''Actions'' = None"
    by (simp add: sample_doc_def json_get_def)
  from parse_actions_absent [OF this c]
  have "actions (self \<lparr>self = c, conn = serving sample_doc, LOG = []\<rparr>) = None"
    by simp
  from no_actions_attribute_error [OF this, of sample_res_maps]
    reset_chassis_propagates [OF no_actions_attribute_error [OF this, of sample_res_maps], of "''on''"]
    c
  show ?thesis
    by (simp add: Chassis_init_serving)
qed

text \<open>
  C6. When the document that the connector returns lacks \<^verbatim>\<open>Id\<close>, \<^verbatim>\<open>Name\<close> or
  \<^verbatim>\<open>ChassisType\<close>, constructing the Chassis fails with
  \<^verbatim>\<open>MissingAttributeError\<close> for this resource; and when a document loads, it still
  loads after any member other than these three is removed from it.
\<close>

theorem required_fields_decide_load:
  fixes cm :: "'c cha_maps"
  shows "(json_get doc ''Id'' = None \<or> json_get doc ''Name'' = None \<or>
          json_get doc ''ChassisType'' = None \<longrightarrow>
            (\<exists>a. fst (Chassis_init cm rm cmn (serving doc) p version) =
                   Inl (MissingAttributeError a p))) \<and>
         (k \<notin> {''Id'', ''Name'', ''ChassisType''} \<longrightarrow>
            (\<exists>c. fst (Chassis_init cm rm cmn (serving doc) p version) = Inr c) \<longrightarrow>
            (\<exists>c. fst (Chassis_init cm rm cmn (serving (without_key k doc)) p version) = Inr c))"
proof (intro conjI impI)
  assume missing: "json_get doc ''Id'' = None \<or> json_get doc ''Name'' = None \<or>
          json_get doc ''ChassisType'' = None"
  then have "\<not> (\<exists>c. parse_attributes cm rm cmn p version doc = Inr c)"
    by (auto simp: parse_ok_iff)
  then obtain e where "parse_attributes cm rm cmn p version doc = Inl e"
    by (cases "parse_attributes cm rm cmn p version doc") auto
  with parse_error [OF this]
  show "\<exists>a. fst (Chassis_init cm rm cmn (serving doc) p version) = Inl (MissingAttributeError a p)"
    by (auto simp: Chassis_init_serving)
next
  assume k: "k \<notin> {''Id'', ''Name'', ''ChassisType''}"
    and ok: "\<exists>c. fst (Chassis_init cm rm cmn (serving doc) p version) = Inr c"
  from ok have "\<exists>c. parse_attributes cm rm cmn p version doc = Inr c"
    by (simp add: Chassis_init_serving)
  then have req: "json_get doc ''ChassisType'' \<noteq> None" "json_get doc ''Id'' \<noteq> None"
      "json_get doc ''Name'' \<noteq> None"
    and act: "\<exists>a. (CompositeField ''Actions'' (ActionsField_subfields cmn) doc p
            :: 'c error + ActionsField option) = Inr a"
    by (simp_all add: parse_ok_iff)
  from act obtain a where "(CompositeField ''Actions'' (ActionsField_subfields cmn) doc p
            :: 'c error + ActionsField option) = Inr a"
    by blast
  from Actions_without [OF this]
  have "\<exists>a'. (CompositeField ''Actions'' (ActionsField_subfields cmn) (without_key k doc) p
                 :: 'c error + ActionsField option) = Inr a'" .
  with req k have "\<exists>c. parse_attributes cm rm cmn p version (without_key k doc) = Inr c"
    by (auto simp: parse_ok_iff json_get_without)
  then show "\<exists>c. fst (Chassis_init cm rm cmn (serving (without_key k doc)) p version) = Inr c"
    by (simp add: Chassis_init_serving)
qed

theorem required_fields_decide_load_witness:
  "fst (Chassis_init sample_cha_maps sample_res_maps sample_common
          (serving (without_key ''Name'' sample_doc)) ''/redfish/v1/Chassis/Blade1'' None)
     = Inl (MissingAttributeError ''Name'' ''/redfish/v1/Chassis/Blade1'') \<and>
   (\<exists>c. fst (Chassis_init sample_cha_maps sample_res_maps sample_common
          (serving (without_key ''AssetTag'' sample_doc_reset)) ''/redfish/v1/Chassis/Blade1'' None)
     = Inr c)"
proof -
  have ok: "\<exists>c. fst (Chassis_init sample_cha_maps sample_res_maps sample_common
          (serving sample_doc_reset) ''/redfish/v1/Chassis/Blade1'' None) = (Inr c :: string error + string Chassis)"
    by (simp add: Chassis_init_serving parse_ok_iff sample_doc_reset_def json_get_def
        CompositeField_def ActionsField_subfields_def ResetActionField_subfields_def
        sample_common_def and_then_simps)
  have k: "''AssetTag'' \<notin> {''Id'', ''Name'', ''ChassisType''}" by simp
  have missing: "json_get (without_key ''Name'' sample_doc) ''Name'' = None"
    by (simp add: json_get_without)
  from required_fields_decide_load [of "without_key ''Name'' sample_doc" sample_cha_maps sample_res_maps sample_common
           "''/redfish/v1/Chassis/Blade1''" None "''AssetTag''"] missing
  obtain a where "fst (Chassis_init sample_cha_maps sample_res_maps sample_common
          (serving (without_key ''Name'' sample_doc)) ''/redfish/v1/Chassis/Blade1'' None)
     = Inl (MissingAttributeError a ''/redfish/v1/Chassis/Blade1'')"
    by blast
  then have "fst (Chassis_init sample_cha_maps sample_res_maps sample_common
          (serving (without_key ''Name'' sample_doc)) ''/redfish/v1/Chassis/Blade1'' None)
     = Inl (MissingAttributeError ''Name'' ''/redfish/v1/Chassis/Blade1'')"
    by (simp add: Chassis_init_serving parse_attributes_def load_simps json_get_without
        sample_doc_members)
  moreover from required_fields_decide_load [of sample_doc_reset sample_cha_maps sample_res_maps sample_common
           "''/redfish/v1/Chassis/Blade1''" None "''AssetTag''"] k ok
  have "\<exists>c. fst (Chassis_init sample_cha_maps sample_res_maps sample_common
          (serving (without_key ''AssetTag'' sample_doc_reset)) ''/redfish/v1/Chassis/Blade1'' None)
     = Inr c"
    by blast
  ultimately show ?thesis by simp
qed

end
